theory Spec2Isabelle
  imports Main "HOL-Library.Sublist" "HOL-Library.AList"
begin

section \<open>Python strings and values\<close>

text \<open>
  A Python \<open>str\<close> is modelled as a \<^typ>\<open>string\<close>: every \<^typ>\<open>char\<close> stands for the code
  point of the same number, so the model ranges over the strings whose code points lie in
  U+0000..U+00FF. On that range the three character classes below are the ones of
  \<open>str.isspace\<close>, \<open>str.isdigit\<close> and \<open>str.isalnum\<close>: besides the ASCII characters,
  U+0085 and U+00A0 are whitespace, the superscripts U+00B2, U+00B3, U+00B9 are digits,
  and the Latin-1 letters and the fractions U+00BC..U+00BE are alphanumeric.
\<close>

definition py_isspace_char :: "char \<Rightarrow> bool" where
  "py_isspace_char c =
     (let n = (of_char c :: nat)
      in (9 \<le> n \<and> n \<le> 13) \<or> (28 \<le> n \<and> n \<le> 32) \<or> n = 133 \<or> n = 160)"

definition py_isdigit_char :: "char \<Rightarrow> bool" where
  "py_isdigit_char c =
     (let n = (of_char c :: nat)
      in (48 \<le> n \<and> n \<le> 57) \<or> n = 178 \<or> n = 179 \<or> n = 185)"

definition py_isalnum_char :: "char \<Rightarrow> bool" where
  "py_isalnum_char c =
     (let n = (of_char c :: nat)
      in py_isdigit_char c \<or> (65 \<le> n \<and> n \<le> 90) \<or> (97 \<le> n \<and> n \<le> 122)
         \<or> n = 170 \<or> n = 181 \<or> n = 186 \<or> (188 \<le> n \<and> n \<le> 190)
         \<or> (192 \<le> n \<and> n \<le> 214) \<or> (216 \<le> n \<and> n \<le> 246) \<or> 248 \<le> n)"

text \<open>\<open>s.strip()\<close>: leading and trailing whitespace removed.\<close>

definition py_strip :: "string \<Rightarrow> string" where
  "py_strip s = rev (dropWhile py_isspace_char (rev (dropWhile py_isspace_char s)))"

text \<open>\<open>s.isdigit()\<close> and \<open>s.isalnum()\<close>: false on the empty string.\<close>

definition py_isdigit :: "string \<Rightarrow> bool" where
  "py_isdigit s = (s \<noteq> [] \<and> list_all py_isdigit_char s)"

definition py_isalnum :: "string \<Rightarrow> bool" where
  "py_isalnum s = (s \<noteq> [] \<and> list_all py_isalnum_char s)"

text \<open>\<open>s.replace(c, '')\<close> for a one-character \<open>c\<close>: every occurrence of \<open>c\<close> removed.\<close>

definition py_replace_empty :: "char \<Rightarrow> string \<Rightarrow> string" where
  "py_replace_empty c s = filter (\<lambda>x. x \<noteq> c) s"

definition py_startswith :: "string \<Rightarrow> string \<Rightarrow> bool" where
  "py_startswith s p = prefix p s"

text \<open>\<open>s.split(c)[0]\<close> for a one-character \<open>c\<close>: the segment before the first \<open>c\<close>.\<close>

definition py_split_first :: "char \<Rightarrow> string \<Rightarrow> string" where
  "py_split_first c s = takeWhile (\<lambda>x. x \<noteq> c) s"

text \<open>
  The values of a configuration (\<open>Dict[str, Any]\<close>): the scalars that \<open>yaml.safe_load\<close>
  yields for a key, apart from floats and timestamps. Sequences and nested mappings are
  outside the model.
\<close>

datatype py_value = PNone | PBool bool | PInt int | PStr string

fun truthy :: "py_value \<Rightarrow> bool" where
  "truthy PNone = False"
| "truthy (PBool b) = b"
| "truthy (PInt n) = (n \<noteq> 0)"
| "truthy (PStr s) = (s \<noteq> [])"

definition digit_char :: "nat \<Rightarrow> char" where
  "digit_char d = char_of (48 + d)"

function str_nat :: "nat \<Rightarrow> string" where
  "str_nat n = (if n < 10 then [digit_char n] else str_nat (n div 10) @ [digit_char (n mod 10)])"
  by pat_completeness auto
termination
  by (relation "measure (\<lambda>n. n)") auto

definition str_int :: "int \<Rightarrow> string" where
  "str_int i = (if i < 0 then CHR ''-'' # str_nat (nat (- i)) else str_nat (nat i))"

datatype py_error = FileNotFoundError | YAMLError | AttributeError | ValueError

text \<open>
  \<open>str(v)\<close>. CPython, from 3.11 on, refuses to write an \<open>int\<close> of more than 4300 decimal
  digits (the default of \<open>sys.set_int_max_str_digits\<close>; the sign is not counted) and
  raises \<open>ValueError\<close>.
\<close>

definition max_str_digits :: nat where
  "max_str_digits = 4300"

fun py_str :: "py_value \<Rightarrow> py_error + string" where
  "py_str PNone = Inr ''None''"
| "py_str (PBool b) = Inr (if b then ''True'' else ''False'')"
| "py_str (PInt i) =
     (if max_str_digits < length (str_nat (nat \<bar>i\<bar>)) then Inl ValueError
      else Inr (str_int i))"
| "py_str (PStr s) = Inr s"

text \<open>The text of a value that is a \<open>str\<close>, as an f-string writes it.\<close>

fun the_str :: "py_value \<Rightarrow> string" where
  "the_str (PStr s) = s"
| "the_str v = []"

text \<open>\<open>v.strip()\<close> on a value: only a \<open>str\<close> has the method, anything else raises.\<close>

fun value_strip :: "py_value \<Rightarrow> py_error + string" where
  "value_strip (PStr s) = Inr (py_strip s)"
| "value_strip v = Inl AttributeError"

text \<open>
  A \<open>dict\<close> with string keys is an association list in insertion order; \<open>k in d\<close> and
  \<open>d[k]\<close> are \<^const>\<open>map_of\<close>, \<open>d[k] = v\<close> is \<^const>\<open>AList.update\<close> (the position of an
  existing key is kept, a new key goes to the end). A \<open>dict\<close> has no key twice.
\<close>

type_synonym config = "(string \<times> py_value) list"

section \<open>models.py\<close>

datatype ValidationStatus = VALID | INVALID | WARNING

datatype SetupStatus = SUCCESS | FAILED | PARTIAL

record SetupError =
  component :: string
  error_type :: string
  message :: string
  suggestion :: "string option"
  recoverable :: bool

record SetupResult =
  success :: bool
  status :: SetupStatus
  gateway_url :: "string option"
  provider_arn :: "string option"
  errors :: "SetupError list"
  warnings :: "string list"

definition SetupResult_add_error ::
  "SetupResult \<Rightarrow> string \<Rightarrow> string \<Rightarrow> string \<Rightarrow> string option \<Rightarrow> bool \<Rightarrow> SetupResult" where
  "SetupResult_add_error self cname etype msg sugg recov =
     (let self = self\<lparr>SetupResult.errors := SetupResult.errors self @
                   [\<lparr>component = cname, error_type = etype, SetupError.message = msg,
                     SetupError.suggestion = sugg, recoverable = recov\<rparr>]\<rparr>;
          self = self\<lparr>success := False\<rparr>
      in if SetupResult.status self = SUCCESS
         then self\<lparr>SetupResult.status := (if \<not> recov then FAILED else PARTIAL)\<rparr>
         else self)"

text \<open>A sequence of \<open>add_error\<close> calls, each given by the error it records.\<close>

fun SetupResult_add_errors :: "SetupResult \<Rightarrow> SetupError list \<Rightarrow> SetupResult" where
  "SetupResult_add_errors self [] = self"
| "SetupResult_add_errors self (e # es) =
     SetupResult_add_errors
       (SetupResult_add_error self (component e) (error_type e) (SetupError.message e)
          (SetupError.suggestion e) (recoverable e)) es"

record SetupState =
  step :: string
  completed_steps :: "string list"
  failed_steps :: "string list"
  configuration :: config
  timestamp :: nat

definition mark_step_completed :: "SetupState \<Rightarrow> string \<Rightarrow> SetupState" where
  "mark_step_completed self s =
     (let self = (if s \<notin> set (completed_steps self)
                  then self\<lparr>completed_steps := completed_steps self @ [s]\<rparr> else self)
      in if s \<in> set (failed_steps self)
         then self\<lparr>failed_steps := remove1 s (failed_steps self)\<rparr> else self)"

definition mark_step_failed :: "SetupState \<Rightarrow> string \<Rightarrow> SetupState" where
  "mark_step_failed self s =
     (if s \<notin> set (failed_steps self)
      then self\<lparr>failed_steps := failed_steps self @ [s]\<rparr> else self)"

definition can_resume_from :: "SetupState \<Rightarrow> string \<Rightarrow> bool" where
  "can_resume_from self s = (s \<in> set (completed_steps self) \<or> s = step self)"

datatype step_op = Completed string | Failed string

fun run_step_ops :: "SetupState \<Rightarrow> step_op list \<Rightarrow> SetupState" where
  "run_step_ops self [] = self"
| "run_step_ops self (Completed s # ops) = run_step_ops (mark_step_completed self s) ops"
| "run_step_ops self (Failed s # ops) = run_step_ops (mark_step_failed self s) ops"

record ValidationError =
  field :: string
  message :: string
  suggestion :: "string option"
  error_code :: "string option"

record ValidationResult =
  is_valid :: bool
  status :: ValidationStatus
  errors :: "ValidationError list"
  warnings :: "string list"

definition add_error ::
  "ValidationResult \<Rightarrow> string \<Rightarrow> string \<Rightarrow> string option \<Rightarrow> string option \<Rightarrow> ValidationResult" where
  "add_error self fld msg sugg code =
     self\<lparr>errors := errors self @
             [\<lparr>field = fld, message = msg, suggestion = sugg, error_code = code\<rparr>],
          is_valid := False, status := INVALID\<rparr>"

definition add_warning :: "ValidationResult \<Rightarrow> string \<Rightarrow> ValidationResult" where
  "add_warning self msg =
     (let self = self\<lparr>warnings := warnings self @ [msg]\<rparr>
      in if status self = VALID then self\<lparr>status := WARNING\<rparr> else self)"

fun add_warnings :: "ValidationResult \<Rightarrow> string list \<Rightarrow> ValidationResult" where
  "add_warnings self [] = self"
| "add_warnings self (m # ms) = add_warnings (add_warning self m) ms"

section \<open>config_manager.py: validation\<close>

text \<open>
  \<open>validate_config\<close> (lines 69-175) runs eight blocks one after the other on one result.
  Each block is a function from the result so far to the next one, in the order of the
  source: the three loops over the required keys (lines 93-117), the account id (119-127),
  the region (129-137), the loop over the two endpoint keys (139-148), the user-pool id
  (150-158) and the scan for placeholder values (160-172). A block that calls \<open>.strip()\<close>
  on a value raises when the value is not a string, and the account-id block raises when
  \<open>str()\<close> does.
\<close>

text \<open>\<open>k in config and config[k]\<close>; its negation is \<open>k not in config or not config[k]\<close>.\<close>

definition has_value :: "config \<Rightarrow> string \<Rightarrow> bool" where
  "has_value c k = (case map_of c k of None \<Rightarrow> False | Some v \<Rightarrow> truthy v)"

text \<open>A text between apostrophes, as the f-strings of the messages write it.\<close>

definition quoted :: "string \<Rightarrow> string" where
  "quoted s = [CHR 0x27] @ s @ [CHR 0x27]"

definition new_result :: ValidationResult where
  "new_result = \<lparr>is_valid = True, status = VALID, errors = [], warnings = []\<rparr>"

definition required_aws_params :: "string list" where
  "required_aws_params =
     [''account_id'', ''region'', ''role_name'', ''endpoint_url'',
      ''credential_provider_endpoint_url'']"

definition required_cognito_params :: "string list" where
  "required_cognito_params = [''user_pool_id'', ''client_id'']"

definition required_gateway_params :: "string list" where
  "required_gateway_params = [''gateway_name'', ''credential_provider_name'']"

fun check_required_aws :: "config \<Rightarrow> string list \<Rightarrow> ValidationResult \<Rightarrow> ValidationResult" where
  "check_required_aws c [] result = result"
| "check_required_aws c (param # params) result =
     check_required_aws c params
       (if \<not> has_value c param
        then add_error result param
               (''Required AWS parameter '' @ quoted param @ '' is missing or empty'')
               (Some (''Add '' @ quoted param @ '' to your config.yaml file'')) None
        else result)"

fun check_required_cognito :: "config \<Rightarrow> string list \<Rightarrow> ValidationResult \<Rightarrow> ValidationResult" where
  "check_required_cognito c [] result = result"
| "check_required_cognito c (param # params) result =
     check_required_cognito c params
       (if \<not> has_value c param
        then add_error result param
               (''Required Cognito parameter '' @ quoted param @ '' is missing or empty'')
               (Some ''Run deployment/setup_cognito.sh to generate Cognito configuration'') None
        else result)"

fun check_required_gateway :: "config \<Rightarrow> string list \<Rightarrow> ValidationResult \<Rightarrow> ValidationResult" where
  "check_required_gateway c [] result = result"
| "check_required_gateway c (param # params) result =
     check_required_gateway c params
       (if \<not> has_value c param
        then add_error result param
               (''Required gateway parameter '' @ quoted param @ '' is missing or empty'')
               (Some (''Add '' @ quoted param @ '' to your config.yaml file'')) None
        else result)"

text \<open>Lines 119-127: the format check of the account id.\<close>

definition check_account_id :: "config \<Rightarrow> ValidationResult \<Rightarrow> py_error + ValidationResult" where
  "check_account_id c result =
     (if has_value c ''account_id''
      then (case py_str (the (map_of c ''account_id'')) of
              Inl e \<Rightarrow> Inl e
            | Inr text \<Rightarrow>
                (let account_id = py_strip text
                 in if \<not> py_isdigit account_id \<or> length account_id \<noteq> 12
                    then Inr (add_error result ''account_id''
                                (''Invalid AWS account ID format: '' @ account_id)
                                (Some ''AWS account ID must be a 12-digit number'') None)
                    else Inr result))
      else Inr result)"

definition check_region :: "config \<Rightarrow> ValidationResult \<Rightarrow> py_error + ValidationResult" where
  "check_region c result =
     (if has_value c ''region''
      then (case value_strip (the (map_of c ''region'')) of
              Inl e \<Rightarrow> Inl e
            | Inr region \<Rightarrow>
                if \<not> py_isalnum (py_replace_empty (CHR ''_'') (py_replace_empty (CHR ''-'') region))
                then Inr (add_error result ''region''
                            (''Invalid AWS region format: '' @ region)
                            (Some (''AWS region should be in format like '' @ quoted ''us-east-1''))
                            None)
                else Inr result)
      else Inr result)"

fun check_endpoint_urls ::
  "config \<Rightarrow> string list \<Rightarrow> ValidationResult \<Rightarrow> py_error + ValidationResult" where
  "check_endpoint_urls c [] result = Inr result"
| "check_endpoint_urls c (url_param # url_params) result =
     (if has_value c url_param
      then (case value_strip (the (map_of c url_param)) of
              Inl e \<Rightarrow> Inl e
            | Inr url \<Rightarrow>
                check_endpoint_urls c url_params
                  (if \<not> py_startswith url ''https://''
                   then add_error result url_param
                          (''Invalid endpoint URL: '' @ url)
                          (Some ''Endpoint URLs must use HTTPS'') None
                   else result))
      else check_endpoint_urls c url_params result)"

definition check_user_pool_id :: "config \<Rightarrow> ValidationResult \<Rightarrow> py_error + ValidationResult" where
  "check_user_pool_id c result =
     (if has_value c ''user_pool_id''
      then (case value_strip (the (map_of c ''user_pool_id'')) of
              Inl e \<Rightarrow> Inl e
            | Inr pool_id \<Rightarrow>
                if CHR ''_'' \<notin> set pool_id
                   \<or> \<not> py_isalnum (py_replace_empty (CHR ''-'')
                                      (py_split_first (CHR ''_'') pool_id))
                then Inr (add_error result ''user_pool_id''
                            (''Invalid Cognito User Pool ID format: '' @ pool_id)
                            (Some (''User Pool ID should be in format '' @ quoted ''region_POOLID''))
                            None)
                else Inr result)
      else Inr result)"

definition placeholder_values :: "string list" where
  "placeholder_values =
     [''YOUR_ACCOUNT_ID'', ''REGION'', [], ''YOUR_USER_POOL_ID'', ''YOUR_CLIENT_ID'',
      ''your-bucket-name'']"

text \<open>\<open>isinstance(value, str) and value in placeholder_values\<close>.\<close>

fun is_placeholder :: "py_value \<Rightarrow> bool" where
  "is_placeholder (PStr s) = (s \<in> set placeholder_values)"
| "is_placeholder v = False"

text \<open>The scan over \<open>config.items()\<close>, given as the list of the items still to visit.\<close>

fun check_placeholders :: "(string \<times> py_value) list \<Rightarrow> ValidationResult \<Rightarrow> ValidationResult" where
  "check_placeholders [] result = result"
| "check_placeholders ((key, val) # items) result =
     check_placeholders items
       (if is_placeholder val
        then add_error result key
               (''Configuration parameter '' @ quoted key @ '' contains placeholder value: ''
                  @ the_str val)
               (Some (''Replace '' @ quoted (the_str val) @ '' with your actual '' @ key)) None
        else result)"

definition validate_config :: "config \<Rightarrow> py_error + ValidationResult" where
  "validate_config c =
     (let result = new_result;
          result = check_required_aws c required_aws_params result;
          result = check_required_cognito c required_cognito_params result;
          result = check_required_gateway c required_gateway_params result
      in case check_account_id c result of
           Inl e \<Rightarrow> Inl e
         | Inr result \<Rightarrow>
             (case check_region c result of
                Inl e \<Rightarrow> Inl e
              | Inr result \<Rightarrow>
                  (case check_endpoint_urls c
                          [''endpoint_url'', ''credential_provider_endpoint_url''] result of
                     Inl e \<Rightarrow> Inl e
                   | Inr result \<Rightarrow>
                       (case check_user_pool_id c result of
                          Inl e \<Rightarrow> Inl e
                        | Inr result \<Rightarrow> Inr (check_placeholders c result)))))"

section \<open>config_manager.py: files\<close>

text \<open>
  The text of a YAML file is represented by what \<open>yaml.safe_load\<close> does on it: it raises
  \<open>YAMLError\<close> (\<open>Malformed\<close>) or yields a document, which is null (an empty file) or a
  mapping; the comments of the text are not part of it. Writing \<open>yaml.dump(config)\<close> gives
  a file whose document is \<open>config\<close>. The configuration directory holds three files:
  \<open>config.yaml\<close>, \<open>.env\<close> (read line by line, so kept as the list of its lines) and
  \<open>.env.example\<close>; a file that does not exist is \<open>None\<close>. Failures of the operating
  system (permissions, a full disk) are outside the model.
\<close>

datatype yaml_doc = YNull | YMap config

datatype yaml_file = Malformed | Doc yaml_doc

record filesystem =
  config_yaml :: "yaml_file option"
  env_file :: "string list option"
  env_example :: "string option"

definition identifier_keys :: "string list" where
  "identifier_keys =
     [''account_id'', ''role_name'', ''user_pool_id'', ''client_id'', ''s3_bucket'',
      ''credential_provider_name'']"

text \<open>Lines 57-60: the loop that trims the identifiers of a loaded mapping.\<close>

fun strip_identifiers :: "string list \<Rightarrow> config \<Rightarrow> config" where
  "strip_identifiers [] config = config"
| "strip_identifiers (key # keys) config =
     strip_identifiers keys
       (case map_of config key of
          Some (PStr s) \<Rightarrow> AList.update key (PStr (py_strip s)) config
        | _ \<Rightarrow> config)"

text \<open>
  \<open>load_config(config_path)\<close>, lines 48-67, on the file that the path stands for
  (\<open>config_path\<close> when it is given, \<open>config.yaml\<close> otherwise): \<open>target\<close> is that file,
  \<open>None\<close> when it does not exist.
\<close>

definition load_config_file :: "yaml_file option \<Rightarrow> py_error + config" where
  "load_config_file target =
     (case target of
        None \<Rightarrow> Inl FileNotFoundError
      | Some Malformed \<Rightarrow> Inl YAMLError
      | Some (Doc YNull) \<Rightarrow> Inr []
      | Some (Doc (YMap config)) \<Rightarrow>
          (let config = (if config \<noteq> [] then strip_identifiers identifier_keys config
                         else config)
           in Inr (if config \<noteq> [] then config else [])))"




definition config_template :: config where
  "config_template =
     [(''account_id'', PStr ''YOUR_ACCOUNT_ID''),
      (''region'', PStr ''us-east-1''),
      (''role_name'', PStr ''SRE-Agent-Gateway-Role ''),
      (''endpoint_url'', PStr ''https://bedrock-agentcore-control.us-east-1.amazonaws.com''),
      (''credential_provider_endpoint_url'',
         PStr ''https://us-east-1.prod.agent-credential-provider.cognito.aws.dev''),
      (''user_pool_id'', PStr ''YOUR_USER_POOL_ID''),
      (''client_id'', PStr ''YOUR_CLIENT_ID''),
      (''s3_bucket'', PStr []),
      (''s3_path_prefix'', PStr ''devops-multiagent-demo''),
      (''credential_provider_name'', PStr ''sre-agent-api-key-credential-provider''),
      (''provider_arn'',
         PStr (''arn:aws:bedrock-agentcore:REGION:ACCOUNT_ID:token-vault/default/''
               @ ''apikeycredentialprovider/sre-agent-api-key-credential-provider'')),
      (''gateway_name'', PStr ''MyAgentCoreGateway''),
      (''gateway_description'', PStr ''AgentCore Gateway for API Integration''),
      (''target_description'', PStr ''S3 target for OpenAPI schema'')]"

definition env_template :: string where
  "env_template = concat (map (\<lambda>l. l @ [CHR 0x0A])
     [''# Environment Variables for SRE Agent Gateway Setup'',
      ''# Copy this file to .env and fill in your actual values'',
      [],
      ''# Cognito Configuration for Token Generation'',
      ''COGNITO_DOMAIN=https://yourdomain.auth.us-west-2.amazoncognito.com'',
      ''COGNITO_CLIENT_ID=your-client-id-here'',
      ''COGNITO_CLIENT_SECRET=your-client-secret-here'',
      ''COGNITO_USER_POOL_ID=your-user-pool-id-here'',
      [],
      ''# Backend API Key for credential provider'',
      ''BACKEND_API_KEY=your-backend-api-key-here'',
      [],
      ''# Anthropic API Credentials (optional - for Anthropic models)'',
      ''ANTHROPIC_API_KEY=your-anthropic-api-key-here''])"

definition create_template_files :: "filesystem \<Rightarrow> filesystem" where
  "create_template_files fs =
     (let fs = (if config_yaml fs = None
                then fs\<lparr>config_yaml := Some (Doc (YMap config_template))\<rparr> else fs)
      in if env_example fs = None then fs\<lparr>env_example := Some env_template\<rparr> else fs)"

text \<open>Lines 275-279: the loop over the lines of \<open>.env\<close>.\<close>

fun parse_env_lines :: "string list \<Rightarrow> (string \<rightharpoonup> string) \<Rightarrow> (string \<rightharpoonup> string)" where
  "parse_env_lines [] env_vars = env_vars"
| "parse_env_lines (line # lines) env_vars =
     (let line = py_strip line
      in parse_env_lines lines
           (if line \<noteq> [] \<and> \<not> py_startswith line ''#'' \<and> CHR ''='' \<in> set line
            then (let key = takeWhile (\<lambda>x. x \<noteq> CHR ''='') line;
                      val = tl (dropWhile (\<lambda>x. x \<noteq> CHR ''='') line)
                  in env_vars(py_strip key \<mapsto> py_strip val))
            else env_vars))"

definition load_environment_variables :: "filesystem \<Rightarrow> (string \<rightharpoonup> string)" where
  "load_environment_variables fs =
     (case env_file fs of None \<Rightarrow> Map.empty | Some lines \<Rightarrow> parse_env_lines lines Map.empty)"

fun check_required_vars ::
  "(string \<rightharpoonup> string) \<Rightarrow> string list \<Rightarrow> ValidationResult \<Rightarrow> ValidationResult" where
  "check_required_vars env_vars [] result = result"
| "check_required_vars env_vars (var # vars) result =
     check_required_vars env_vars vars
       (if (case env_vars var of None \<Rightarrow> True | Some v \<Rightarrow> v = [])
        then add_error result var
               (''Required environment variable '' @ quoted var @ '' is not set'')
               (Some (''Set '' @ var @ '' in your .env file or environment'')) None
        else result)"

text \<open>\<open>os_environ\<close> is the process environment, \<open>dict(os.environ)\<close>.\<close>

definition validate_environment_variables ::
  "(string \<rightharpoonup> string) \<Rightarrow> filesystem \<Rightarrow> string list \<Rightarrow> ValidationResult" where
  "validate_environment_variables os_environ fs required_vars =
     (let env_vars = os_environ ++ load_environment_variables fs
      in check_required_vars env_vars required_vars new_result)"

section \<open>tests/conftest.py\<close>

text \<open>The fixture \<open>sample_config_dict\<close>.\<close>

definition sample_config_dict :: config where
  "sample_config_dict =
     [(''account_id'', PStr ''123456789012''),
      (''region'', PStr ''us-east-1''),
      (''role_name'', PStr ''test-role''),
      (''endpoint_url'', PStr ''https://bedrock-agentcore-control.us-east-1.amazonaws.com''),
      (''credential_provider_endpoint_url'',
         PStr ''https://us-east-1.prod.agent-credential-provider.cognito.aws.dev''),
      (''user_pool_id'', PStr ''us-east-1_ABCDEFGHI''),
      (''client_id'', PStr ''test-client-id''),
      (''s3_bucket'', PStr ''test-bucket''),
      (''s3_path_prefix'', PStr ''test-prefix''),
      (''credential_provider_name'', PStr ''test-provider''),
      (''gateway_name'', PStr ''test-gateway''),
      (''gateway_description'', PStr ''Test gateway'')]"

section \<open>Vocabulary of the properties\<close>

text \<open>
  A result to which the errors \<open>es\<close> were added, one \<open>add_error\<close> each: with no error
  it is the result itself.
\<close>

definition with_errors :: "ValidationResult \<Rightarrow> ValidationError list \<Rightarrow> ValidationResult" where
  "with_errors r es =
     (if es = [] then r
      else r\<lparr>errors := errors r @ es, is_valid := False, status := INVALID\<rparr>)"

fun is_str :: "py_value \<Rightarrow> bool" where
  "is_str (PStr s) = True"
| "is_str v = False"

text \<open>
  The keys whose value \<open>validate_config\<close> trims with \<open>.strip()\<close>, and what lets the call
  go through for a key: no value, a falsy value (the check is skipped) or a string.
\<close>

definition stripped_keys :: "string list" where
  "stripped_keys =
     [''region'', ''endpoint_url'', ''credential_provider_endpoint_url'', ''user_pool_id'']"

definition str_or_falsy :: "config \<Rightarrow> string \<Rightarrow> bool" where
  "str_or_falsy c k = (case map_of c k of None \<Rightarrow> True | Some v \<Rightarrow> is_str v \<or> \<not> truthy v)"

text \<open>What lets \<open>str()\<close> go through on the account id: no value, a falsy one, or one it writes.\<close>

definition account_id_converts :: "config \<Rightarrow> bool" where
  "account_id_converts c =
     (case map_of c ''account_id'' of
        None \<Rightarrow> True
      | Some v \<Rightarrow> py_str v \<noteq> Inl ValueError \<or> \<not> truthy v)"

text \<open>The well-formed values of the claims: what a reader takes the words to mean.\<close>

definition ascii_string :: "string \<Rightarrow> bool" where
  "ascii_string s = list_all (\<lambda>ch. (of_char ch :: nat) < 128) s"

definition ascii_digit :: "char \<Rightarrow> bool" where
  "ascii_digit ch = (ch \<in> set ''0123456789'')"

definition twelve_digits :: "string \<Rightarrow> bool" where
  "twelve_digits s = (length s = 12 \<and> list_all ascii_digit s)"

text \<open>A region: letters, digits, hyphens and underscores, with a letter or digit among them.\<close>

definition valid_region :: "string \<Rightarrow> bool" where
  "valid_region s =
     (list_all (\<lambda>ch. py_isalnum_char ch \<or> ch = CHR ''-'' \<or> ch = CHR ''_'') s
      \<and> list_ex py_isalnum_char s)"

definition https_url :: "string \<Rightarrow> bool" where
  "https_url s = prefix ''https://'' s"

text \<open>
  A user-pool id: it has an underscore, and the segment before the first one is made of
  letters, digits and hyphens, with a letter or digit among them.
\<close>

definition well_formed_pool_id :: "string \<Rightarrow> bool" where
  "well_formed_pool_id s =
     (CHR ''_'' \<in> set s
      \<and> list_all (\<lambda>ch. py_isalnum_char ch \<or> ch = CHR ''-'') (takeWhile (\<lambda>ch. ch \<noteq> CHR ''_'') s)
      \<and> list_ex py_isalnum_char (takeWhile (\<lambda>ch. ch \<noteq> CHR ''_'') s))"

text \<open>
  What the loop of \<open>load_config\<close> makes of the value of an identifier key: a string is
  trimmed, any other value is kept.
\<close>

fun stripped_value :: "py_value \<Rightarrow> py_value" where
  "stripped_value (PStr s) = PStr (py_strip s)"
| "stripped_value v = v"

section \<open>Properties of the result and state records\<close>

subsection \<open>SetupResult.add_error\<close>

lemma SetupResult_add_error_success:
  "success (SetupResult_add_error r c t m s rec) = False"
  by (simp add: SetupResult_add_error_def Let_def)

lemma SetupResult_add_error_step:
  "SetupResult.status (SetupResult_add_error r c t m s rec) =
     (if SetupResult.status r = SUCCESS then (if rec then PARTIAL else FAILED)
      else SetupResult.status r)"
  by (simp add: SetupResult_add_error_def Let_def)

lemma SetupResult_add_errors_sticky:
  "SetupResult.status r \<noteq> SUCCESS \<Longrightarrow>
   SetupResult.status (SetupResult_add_errors r es) = SetupResult.status r"
  by (induction es arbitrary: r) (simp_all add: SetupResult_add_error_step)

lemma SetupResult_add_errors_success:
  "es \<noteq> [] \<Longrightarrow> success (SetupResult_add_errors r es) = False"
proof (induction es arbitrary: r)
  case Nil
  then show ?case by simp
next
  case (Cons e es)
  show ?case
  proof (cases es)
    case Nil
    then show ?thesis by (simp add: SetupResult_add_error_success)
  next
    case (Cons e' es')
    then show ?thesis using Cons.IH by simp
  qed
qed

text \<open>
  C1, as the code has it. Every \<open>add_error\<close> clears the success flag. The status is written
  only while it is still \<open>SUCCESS\<close>: a non-recoverable error then makes it \<open>FAILED\<close>, a
  recoverable one \<open>PARTIAL\<close>; once the status has left \<open>SUCCESS\<close> no later error changes
  it. So after any non-empty sequence of calls on a result whose status is \<open>SUCCESS\<close>, the
  status is decided by the first error of the sequence alone.
\<close>

theorem SetupResult_add_error_status:
  "success (SetupResult_add_error r c t m s rec) = False
   \<and> SetupResult.status (SetupResult_add_error r c t m s rec) =
       (if SetupResult.status r = SUCCESS then (if rec then PARTIAL else FAILED)
        else SetupResult.status r)
   \<and> success (SetupResult_add_errors r (e # es)) = False
   \<and> SetupResult.status (SetupResult_add_errors r (e # es)) =
       (if SetupResult.status r = SUCCESS then (if recoverable e then PARTIAL else FAILED)
        else SetupResult.status r)"
proof -
  have "SetupResult.status (SetupResult_add_errors r (e # es)) =
       (if SetupResult.status r = SUCCESS then (if recoverable e then PARTIAL else FAILED)
        else SetupResult.status r)"
    by (simp add: SetupResult_add_errors_sticky SetupResult_add_error_step)
  then show ?thesis
    using SetupResult_add_errors_success [of "e # es" r]
    by (simp add: SetupResult_add_error_success SetupResult_add_error_step)
qed

theorem SetupResult_add_error_status_witness:
  "SetupResult.status (SetupResult_add_errors
      \<lparr>success = True, status = SUCCESS, gateway_url = None, provider_arn = None,
       errors = [], warnings = []\<rparr>
      [\<lparr>component = ''s3'', error_type = ''AccessDenied'', message = ''no bucket'',
        suggestion = None, recoverable = False\<rparr>,
       \<lparr>component = ''gateway'', error_type = ''Timeout'', message = ''slow'',
        suggestion = None, recoverable = True\<rparr>]) = FAILED
   \<and> success (SetupResult_add_errors
      \<lparr>success = True, status = SUCCESS, gateway_url = None, provider_arn = None,
       errors = [], warnings = []\<rparr>
      [\<lparr>component = ''s3'', error_type = ''AccessDenied'', message = ''no bucket'',
        suggestion = None, recoverable = False\<rparr>,
       \<lparr>component = ''gateway'', error_type = ''Timeout'', message = ''slow'',
        suggestion = None, recoverable = True\<rparr>]) = False"
  using SetupResult_add_error_status [of
      "\<lparr>success = True, status = SUCCESS, gateway_url = None, provider_arn = None,
        errors = [], warnings = []\<rparr>" _ _ _ _ _
      "\<lparr>component = ''s3'', error_type = ''AccessDenied'', message = ''no bucket'',
        suggestion = None, recoverable = False\<rparr>"
      "[\<lparr>component = ''gateway'', error_type = ''Timeout'', message = ''slow'',
        suggestion = None, recoverable = True\<rparr>]"]
  by simp

text \<open>
  C1 as it is written fails: a recoverable error followed by a non-recoverable one, on a
  fresh successful result. The non-recoverable error is the first of its kind, and the
  status stays \<open>PARTIAL\<close>.
\<close>

theorem SetupResult_first_nonrecoverable_counterexample:
  "SetupResult.status (SetupResult_add_error (SetupResult_add_error
      \<lparr>success = True, status = SUCCESS, gateway_url = None, provider_arn = None,
       errors = [], warnings = []\<rparr>
      ''gateway'' ''Timeout'' ''slow'' None True)
      ''s3'' ''AccessDenied'' ''no bucket'' None False) = PARTIAL
   \<and> SetupResult.status (SetupResult_add_error (SetupResult_add_error
      \<lparr>success = True, status = SUCCESS, gateway_url = None, provider_arn = None,
       errors = [], warnings = []\<rparr>
      ''gateway'' ''Timeout'' ''slow'' None True)
      ''s3'' ''AccessDenied'' ''no bucket'' None False) \<noteq> FAILED"
  by (simp add: SetupResult_add_error_def Let_def)

subsection \<open>SetupState\<close>

lemma mark_step_completed_not_failed:
  "distinct (failed_steps st) \<Longrightarrow> s \<notin> set (failed_steps (mark_step_completed st s))"
  by (simp add: mark_step_completed_def Let_def)

lemma mark_step_completed_disjoint:
  "distinct (failed_steps st) \<Longrightarrow> set (completed_steps st) \<inter> set (failed_steps st) = {} \<Longrightarrow>
   set (completed_steps (mark_step_completed st s))
     \<inter> set (failed_steps (mark_step_completed st s)) = {}"
  by (auto simp add: mark_step_completed_def Let_def)

lemma run_step_ops_distinct_failed:
  "distinct (failed_steps st) \<Longrightarrow> distinct (failed_steps (run_step_ops st ops))"
  by (induction st ops rule: run_step_ops.induct)
     (simp_all add: mark_step_completed_def mark_step_failed_def Let_def)

text \<open>
  C2. \<open>mark_step_completed\<close> takes the step out of the failed list and keeps the two lists
  disjoint (the lemmas above), but \<open>mark_step_failed\<close> does not take the step out of the
  completed list: a step that completes and then fails is in both lists.
\<close>

theorem mark_step_failed_keeps_completed:
  "completed_steps (run_step_ops
      \<lparr>step = ''deploy'', completed_steps = [], failed_steps = [], configuration = [],
       timestamp = 0\<rparr> [Completed ''deploy'', Failed ''deploy'']) = [''deploy'']
   \<and> failed_steps (run_step_ops
      \<lparr>step = ''deploy'', completed_steps = [], failed_steps = [], configuration = [],
       timestamp = 0\<rparr> [Completed ''deploy'', Failed ''deploy'']) = [''deploy'']"
  by (simp add: mark_step_completed_def mark_step_failed_def Let_def)

subsection \<open>ValidationResult.add_warning\<close>

lemma add_warning_frame:
  "is_valid (add_warning r m) = is_valid r \<and> errors (add_warning r m) = errors r"
  by (simp add: add_warning_def Let_def)

text \<open>
  C10. \<open>add_warning\<close> changes neither the validity flag nor the error list, and so does any
  sequence of \<open>add_warning\<close> calls: a valid result without errors stays so.
\<close>

theorem add_warnings_keep_validity:
  "is_valid (add_warning r m) = is_valid r \<and> errors (add_warning r m) = errors r
   \<and> is_valid (add_warnings r ms) = is_valid r \<and> errors (add_warnings r ms) = errors r"
proof -
  have "is_valid (add_warnings r ms) = is_valid r \<and> errors (add_warnings r ms) = errors r"
    by (induction ms arbitrary: r) (simp_all add: add_warning_frame)
  then show ?thesis by (simp add: add_warning_frame)
qed

theorem add_warnings_keep_validity_witness:
  "is_valid (add_warnings new_result [''slow disk'', ''old CLI'']) = True
   \<and> errors (add_warnings new_result [''slow disk'', ''old CLI'']) = []
   \<and> warnings (add_warnings new_result [''slow disk'', ''old CLI''])
       = [''slow disk'', ''old CLI'']"
  using add_warnings_keep_validity [of new_result _ "[''slow disk'', ''old CLI'']"]
  by (simp add: new_result_def add_warning_def Let_def)

section \<open>Properties of the configuration files\<close>

text \<open>
  C7. \<open>create_template_files\<close> writes each of its two files only where none exists and
  leaves an existing file as it is, so a second call changes nothing.
\<close>

theorem create_template_files_idempotent:
  "create_template_files (create_template_files fs) = create_template_files fs
   \<and> config_yaml (create_template_files fs) =
       (case config_yaml fs of None \<Rightarrow> Some (Doc (YMap config_template)) | Some f \<Rightarrow> Some f)
   \<and> env_example (create_template_files fs) =
       (case env_example fs of None \<Rightarrow> Some env_template | Some t \<Rightarrow> Some t)
   \<and> env_file (create_template_files fs) = env_file fs"
  by (simp add: create_template_files_def Let_def split: option.splits)

theorem create_template_files_idempotent_witness:
  "create_template_files (create_template_files
      \<lparr>config_yaml = Some (Doc (YMap [(''region'', PStr ''eu-west-1'')])), env_file = None,
       env_example = None\<rparr>) =
     \<lparr>config_yaml = Some (Doc (YMap [(''region'', PStr ''eu-west-1'')])), env_file = None,
      env_example = Some env_template\<rparr>"
  using create_template_files_idempotent [of
      "\<lparr>config_yaml = Some (Doc (YMap [(''region'', PStr ''eu-west-1'')])), env_file = None,
        env_example = None\<rparr>"]
  by (simp add: create_template_files_def)

subsection \<open>Loading\<close>

lemma strip_identifiers_keys: "map fst (strip_identifiers ks m) = map fst m"
proof (induction ks arbitrary: m)
  case Nil
  then show ?case by simp
next
  case (Cons k ks)
  have "map fst (AList.update k v m) = map fst m" if "map_of m k = Some w" for v w
    using that by (simp add: update_keys map_of_eq_None_iff [symmetric] del: map_of_eq_None_iff)
  then show ?case
    by (simp add: Cons.IH split: option.splits py_value.splits)
qed

lemma strip_identifiers_lookup:
  "distinct ks \<Longrightarrow>
   map_of (strip_identifiers ks m) k =
     (if k \<in> set ks then map_option stripped_value (map_of m k) else map_of m k)"
proof (induction ks arbitrary: m)
  case Nil
  then show ?case by simp
next
  case (Cons a ks)
  then show ?case
    by (auto simp add: update_conv' split: option.splits py_value.splits)
qed

lemma distinct_identifier_keys: "distinct identifier_keys"
  by (simp add: identifier_keys_def)

lemma strip_identifiers_Nil: "strip_identifiers ks [] = []"
  by (induction ks) simp_all

lemma strip_identifiers_eq_Nil: "(strip_identifiers ks m = []) = (m = [])"
  using strip_identifiers_keys [of ks m]
  by (metis map_is_Nil_conv)

text \<open>
  C8, as the code has it. \<open>load_config\<close> raises \<open>FileNotFoundError\<close> when the file does
  not exist and \<open>YAMLError\<close> when its text is malformed, and returns the empty mapping for
  a null document. For a mapping \<open>m\<close> it returns \<open>m\<close> after the loop of lines 57-60: the
  same keys in the same order, the string values of the six identifier keys trimmed, every
  other value as parsed.
\<close>

theorem load_config_cases:
  "load_config_file target =
     (case target of
        None \<Rightarrow> Inl FileNotFoundError
      | Some Malformed \<Rightarrow> Inl YAMLError
      | Some (Doc YNull) \<Rightarrow> Inr []
      | Some (Doc (YMap m)) \<Rightarrow> Inr (strip_identifiers identifier_keys m))
   \<and> map fst (strip_identifiers identifier_keys m) = map fst m
   \<and> map_of (strip_identifiers identifier_keys m) k =
       (if k \<in> set identifier_keys then map_option stripped_value (map_of m k)
        else map_of m k)"
  by (simp add: load_config_file_def Let_def strip_identifiers_keys strip_identifiers_lookup
        distinct_identifier_keys strip_identifiers_eq_Nil strip_identifiers_Nil
      split: option.splits yaml_file.splits yaml_doc.splits)

theorem load_config_cases_witness:
  "load_config_file
     (Some (Doc (YMap [(''region'', PStr ''us-east-1 ''), (''client_id'', PStr '' abc'')])))
   = Inr [(''region'', PStr ''us-east-1 ''), (''client_id'', PStr ''abc'')]
   \<and> load_config_file None = Inl FileNotFoundError
   \<and> load_config_file (Some Malformed) = Inl YAMLError
   \<and> load_config_file (Some (Doc YNull)) = Inr []"
  using load_config_cases [of
      "Some (Doc (YMap [(''region'', PStr ''us-east-1 ''), (''client_id'', PStr '' abc'')]))"
      "[]" "''x''"]
    load_config_cases [of None "[]" "''x''"]
    load_config_cases [of "Some Malformed" "[]" "''x''"]
    load_config_cases [of "Some (Doc YNull)" "[]" "''x''"]
  by (simp add: identifier_keys_def py_strip_def py_isspace_char_def)

text \<open>
  C8 as it is written fails where an identifier has whitespace around it: the mapping that
  \<open>load_config\<close> returns is then not the parsed one.
\<close>

theorem load_config_counterexample:
  "load_config_file (Some (Doc (YMap [(''role_name'', PStr ''admin '')])))
     = Inr [(''role_name'', PStr ''admin'')]
   \<and> load_config_file (Some (Doc (YMap [(''role_name'', PStr ''admin '')])))
     \<noteq> Inr [(''role_name'', PStr ''admin '')]"
  by (simp add: load_config_file_def identifier_keys_def py_strip_def py_isspace_char_def)

subsection \<open>Updating one parameter\<close>




subsection \<open>Environment variables\<close>

lemma check_required_vars_fields:
  "map field (errors (check_required_vars env vars r)) =
     map field (errors r) @ filter (\<lambda>v. case env v of None \<Rightarrow> True | Some x \<Rightarrow> x = []) vars"
  by (induction vars arbitrary: r) (simp_all add: add_error_def)

text \<open>
  C9. For a required variable that the environment file defines, whatever the process
  environment holds for it, \<open>validate_environment_variables\<close> reports the variable exactly
  when the value in the file is empty.
\<close>

theorem validate_environment_file_precedence:
  assumes "load_environment_variables fs var = Some file_val"
    and "var \<in> set required_vars"
  shows "(var \<in> field ` set (errors (validate_environment_variables os_environ fs required_vars)))
         = (file_val = [])"
proof -
  have "set (map field (errors (validate_environment_variables os_environ fs required_vars))) =
      {v \<in> set required_vars.
         case (os_environ ++ load_environment_variables fs) v of
           None \<Rightarrow> True | Some x \<Rightarrow> x = []}"
    by (simp add: validate_environment_variables_def Let_def check_required_vars_fields
          new_result_def)
  moreover have "(os_environ ++ load_environment_variables fs) var = Some file_val"
    using assms(1) by (simp add: map_add_def)
  ultimately show ?thesis using assms(2) by auto
qed

theorem validate_environment_file_precedence_witness:
  "load_environment_variables
      \<lparr>config_yaml = None,
       env_file = Some [''# keys'', ''BACKEND_API_KEY = '', ''OTHER=1''],
       env_example = None\<rparr> ''BACKEND_API_KEY'' = Some []
   \<and> ''BACKEND_API_KEY'' \<in> set [''BACKEND_API_KEY'']
   \<and> [''BACKEND_API_KEY'' \<mapsto> ''secret''] ''BACKEND_API_KEY'' = Some ''secret''
   \<and> ''BACKEND_API_KEY'' \<in> field ` set (errors (validate_environment_variables
        [''BACKEND_API_KEY'' \<mapsto> ''secret'']
        \<lparr>config_yaml = None,
         env_file = Some [''# keys'', ''BACKEND_API_KEY = '', ''OTHER=1''],
         env_example = None\<rparr>
        [''BACKEND_API_KEY'']))"
proof -
  have h: "load_environment_variables
      \<lparr>config_yaml = None,
       env_file = Some [''# keys'', ''BACKEND_API_KEY = '', ''OTHER=1''],
       env_example = None\<rparr> ''BACKEND_API_KEY'' = Some []"
    by (simp add: load_environment_variables_def Let_def py_strip_def py_isspace_char_def
          py_startswith_def)
  show ?thesis
    using h validate_environment_file_precedence [OF h, of "[''BACKEND_API_KEY'']"
        "[''BACKEND_API_KEY'' \<mapsto> ''secret'']"]
    by simp
qed

subsection \<open>Validation: the checks only append\<close>

lemma with_errors_Nil: "with_errors r [] = r"
  by (simp add: with_errors_def)

lemma with_errors_append: "with_errors (with_errors r a) b = with_errors r (a @ b)"
  by (simp add: with_errors_def)

lemma add_error_with_errors:
  "add_error r f m s code =
     with_errors r [\<lparr>field = f, message = m, suggestion = s, error_code = code\<rparr>]"
  by (simp add: add_error_def with_errors_def)

lemma errors_with_errors: "errors (with_errors r es) = errors r @ es"
  by (simp add: with_errors_def)

lemma errors_new_result: "errors new_result = []"
  by (simp add: new_result_def)

lemma check_required_aws_ex: "\<exists>E. \<forall>r. check_required_aws c ps r = with_errors r E"
proof (induction ps)
  case Nil
  show ?case by (rule exI [of _ "[]"]) (simp add: with_errors_Nil)
next
  case (Cons p ps)
  then obtain E where E: "\<And>r. check_required_aws c ps r = with_errors r E" by blast
  show ?case
  proof (cases "has_value c p")
    case True
    then show ?thesis using E by (intro exI [of _ E]) simp
  next
    case False
    then show ?thesis using E
      by (intro exI [of _ "[\<lparr>field = p,
            message = ''Required AWS parameter '' @ quoted p @ '' is missing or empty'',
            suggestion = Some (''Add '' @ quoted p @ '' to your config.yaml file''),
            error_code = None\<rparr>] @ E"])
         (simp add: add_error_with_errors with_errors_append del: append.simps)
  qed
qed

lemma check_required_cognito_ex: "\<exists>E. \<forall>r. check_required_cognito c ps r = with_errors r E"
proof (induction ps)
  case Nil
  show ?case by (rule exI [of _ "[]"]) (simp add: with_errors_Nil)
next
  case (Cons p ps)
  then obtain E where E: "\<And>r. check_required_cognito c ps r = with_errors r E" by blast
  show ?case
  proof (cases "has_value c p")
    case True
    then show ?thesis using E by (intro exI [of _ E]) simp
  next
    case False
    then show ?thesis using E
      by (intro exI [of _ "[\<lparr>field = p,
            message = ''Required Cognito parameter '' @ quoted p @ '' is missing or empty'',
            suggestion = Some ''Run deployment/setup_cognito.sh to generate Cognito configuration'',
            error_code = None\<rparr>] @ E"])
         (simp add: add_error_with_errors with_errors_append del: append.simps)
  qed
qed

lemma check_required_gateway_ex: "\<exists>E. \<forall>r. check_required_gateway c ps r = with_errors r E"
proof (induction ps)
  case Nil
  show ?case by (rule exI [of _ "[]"]) (simp add: with_errors_Nil)
next
  case (Cons p ps)
  then obtain E where E: "\<And>r. check_required_gateway c ps r = with_errors r E" by blast
  show ?case
  proof (cases "has_value c p")
    case True
    then show ?thesis using E by (intro exI [of _ E]) simp
  next
    case False
    then show ?thesis using E
      by (intro exI [of _ "[\<lparr>field = p,
            message = ''Required gateway parameter '' @ quoted p @ '' is missing or empty'',
            suggestion = Some (''Add '' @ quoted p @ '' to your config.yaml file''),
            error_code = None\<rparr>] @ E"])
         (simp add: add_error_with_errors with_errors_append del: append.simps)
  qed
qed

lemma check_placeholders_ex: "\<exists>E. \<forall>r. check_placeholders items r = with_errors r E"
proof (induction items)
  case Nil
  show ?case by (rule exI [of _ "[]"]) (simp add: with_errors_Nil)
next
  case (Cons kv items)
  then obtain E where E: "\<And>r. check_placeholders items r = with_errors r E" by blast
  obtain k v where kv: "kv = (k, v)" by (cases kv)
  show ?case
  proof (cases "is_placeholder v")
    case False
    then show ?thesis using E kv by (intro exI [of _ E]) simp
  next
    case True
    then show ?thesis using E kv
      by (intro exI [of _ "[\<lparr>field = k,
            message = ''Configuration parameter '' @ quoted k
                        @ '' contains placeholder value: '' @ the_str v,
            suggestion = Some (''Replace '' @ quoted (the_str v) @ '' with your actual '' @ k),
            error_code = None\<rparr>] @ E"])
         (simp add: add_error_with_errors with_errors_append del: append.simps)
  qed
qed

lemma py_str_cases: "(\<exists>t. py_str v = Inr t) \<or> py_str v = Inl ValueError"
  by (cases v) auto

lemma check_account_id_ex:
  assumes "account_id_converts c"
  shows "\<exists>E. \<forall>r. check_account_id c r = Inr (with_errors r E)"
proof (cases "has_value c ''account_id''")
  case False
  then show ?thesis
    by (intro exI [of _ "[]"]) (simp add: check_account_id_def with_errors_Nil)
next
  case True
  then obtain v where v: "map_of c ''account_id'' = Some v" "truthy v"
    by (auto simp add: has_value_def split: option.splits)
  with assms obtain t where t: "py_str v = Inr t"
    using py_str_cases [of v] by (auto simp add: account_id_converts_def)
  show ?thesis
  proof (cases "\<not> py_isdigit (py_strip t) \<or> length (py_strip t) \<noteq> 12")
    case True
    then show ?thesis using v t \<open>has_value c ''account_id''\<close>
      by (intro exI [of _ "[\<lparr>field = ''account_id'',
            message = ''Invalid AWS account ID format: '' @ py_strip t,
            suggestion = Some ''AWS account ID must be a 12-digit number'',
            error_code = None\<rparr>]"])
         (auto simp add: check_account_id_def Let_def add_error_with_errors)
  next
    case False
    then show ?thesis using v t \<open>has_value c ''account_id''\<close>
      by (intro exI [of _ "[]"]) (auto simp add: check_account_id_def Let_def with_errors_Nil)
  qed
qed

lemma check_account_id_raises:
  "\<not> account_id_converts c \<Longrightarrow> check_account_id c r = Inl ValueError"
  by (auto simp add: account_id_converts_def check_account_id_def has_value_def
      split: option.splits)

lemma value_strip_cases:
  "str_or_falsy c k \<Longrightarrow> has_value c k \<Longrightarrow>
   \<exists>s. map_of c k = Some (PStr s) \<and> s \<noteq> [] \<and> value_strip (the (map_of c k)) = Inr (py_strip s)"
  by (cases "map_of c k"; cases "the (map_of c k)")
     (auto simp add: str_or_falsy_def has_value_def)

lemma value_strip_raises:
  "\<not> str_or_falsy c k \<Longrightarrow> has_value c k \<and> value_strip (the (map_of c k)) = Inl AttributeError"
  by (cases "map_of c k"; cases "the (map_of c k)")
     (auto simp add: str_or_falsy_def has_value_def)

lemma check_region_ex:
  assumes "str_or_falsy c ''region''"
  shows "\<exists>E. \<forall>r. check_region c r = Inr (with_errors r E)"
proof (cases "has_value c ''region''")
  case False
  then show ?thesis
    by (intro exI [of _ "[]"]) (simp add: check_region_def with_errors_Nil)
next
  case True
  from value_strip_cases [OF assms True] obtain s where
    s: "value_strip (the (map_of c ''region'')) = Inr (py_strip s)" by blast
  show ?thesis
  proof (cases "py_isalnum (py_replace_empty (CHR ''_'') (py_replace_empty (CHR ''-'') (py_strip s)))")
    case True
    then show ?thesis using s \<open>has_value c ''region''\<close>
      by (intro exI [of _ "[]"]) (simp add: check_region_def with_errors_Nil)
  next
    case False
    then show ?thesis using s \<open>has_value c ''region''\<close>
      by (intro exI [of _ "[\<lparr>field = ''region'',
            message = ''Invalid AWS region format: '' @ py_strip s,
            suggestion = Some (''AWS region should be in format like '' @ quoted ''us-east-1''),
            error_code = None\<rparr>]"])
         (simp add: check_region_def add_error_with_errors)
  qed
qed

lemma check_region_raises:
  "\<not> str_or_falsy c ''region'' \<Longrightarrow> check_region c r = Inl AttributeError"
  using value_strip_raises [of c "''region''"] by (simp add: check_region_def)

lemma check_user_pool_id_ex:
  assumes "str_or_falsy c ''user_pool_id''"
  shows "\<exists>E. \<forall>r. check_user_pool_id c r = Inr (with_errors r E)"
proof (cases "has_value c ''user_pool_id''")
  case False
  then show ?thesis
    by (intro exI [of _ "[]"]) (simp add: check_user_pool_id_def with_errors_Nil)
next
  case True
  from value_strip_cases [OF assms True] obtain s where
    s: "value_strip (the (map_of c ''user_pool_id'')) = Inr (py_strip s)" by blast
  show ?thesis
  proof (cases "CHR ''_'' \<notin> set (py_strip s)
                \<or> \<not> py_isalnum (py_replace_empty (CHR ''-'')
                                   (py_split_first (CHR ''_'') (py_strip s)))")
    case False
    then show ?thesis using s \<open>has_value c ''user_pool_id''\<close>
      by (intro exI [of _ "[]"]) (simp add: check_user_pool_id_def with_errors_Nil)
  next
    case True
    then show ?thesis using s \<open>has_value c ''user_pool_id''\<close>
      by (intro exI [of _ "[\<lparr>field = ''user_pool_id'',
            message = ''Invalid Cognito User Pool ID format: '' @ py_strip s,
            suggestion = Some (''User Pool ID should be in format '' @ quoted ''region_POOLID''),
            error_code = None\<rparr>]"])
         (auto simp add: check_user_pool_id_def add_error_with_errors)
  qed
qed

lemma check_user_pool_id_raises:
  "\<not> str_or_falsy c ''user_pool_id'' \<Longrightarrow> check_user_pool_id c r = Inl AttributeError"
  using value_strip_raises [of c "''user_pool_id''"] by (simp add: check_user_pool_id_def)

lemma check_endpoint_urls_ex:
  "list_all (str_or_falsy c) ps \<Longrightarrow> \<exists>E. \<forall>r. check_endpoint_urls c ps r = Inr (with_errors r E)"
proof (induction ps)
  case Nil
  show ?case by (rule exI [of _ "[]"]) (simp add: with_errors_Nil)
next
  case (Cons p ps)
  then obtain E where E: "\<And>r. check_endpoint_urls c ps r = Inr (with_errors r E)" by auto
  from Cons.prems have sf: "str_or_falsy c p" by simp
  show ?case
  proof (cases "has_value c p")
    case False
    then show ?thesis using E by (intro exI [of _ E]) simp
  next
    case True
    from value_strip_cases [OF sf True] obtain s where
      s: "value_strip (the (map_of c p)) = Inr (py_strip s)" by blast
    show ?thesis
    proof (cases "py_startswith (py_strip s) ''https://''")
      case True
      then show ?thesis using s E \<open>has_value c p\<close> by (intro exI [of _ E]) simp
    next
      case False
      then show ?thesis using s E \<open>has_value c p\<close>
        by (intro exI [of _ "[\<lparr>field = p,
              message = ''Invalid endpoint URL: '' @ py_strip s,
              suggestion = Some ''Endpoint URLs must use HTTPS'',
              error_code = None\<rparr>] @ E"])
           (simp add: add_error_with_errors with_errors_append del: append.simps)
    qed
  qed
qed

lemma check_endpoint_urls_raises:
  "\<not> list_all (str_or_falsy c) ps \<Longrightarrow> check_endpoint_urls c ps r = Inl AttributeError"
proof (induction ps arbitrary: r)
  case Nil
  then show ?case by simp
next
  case (Cons p ps)
  show ?case
  proof (cases "str_or_falsy c p")
    case False
    then show ?thesis using value_strip_raises [of c p] by simp
  next
    case True
    then have "\<not> list_all (str_or_falsy c) ps" using Cons.prems by simp
    then have IH: "\<And>r. check_endpoint_urls c ps r = Inl AttributeError" using Cons.IH by blast
    show ?thesis
    proof (cases "has_value c p")
      case False
      then show ?thesis using IH by simp
    next
      case hv: True
      from value_strip_cases [OF True hv] obtain s where
        "value_strip (the (map_of c p)) = Inr (py_strip s)" by blast
      then show ?thesis using IH hv by simp
    qed
  qed
qed

lemma with_errors_new: "errors (with_errors new_result E) = E"
  by (simp add: errors_with_errors errors_new_result)

lemma is_valid_with_errors_new: "is_valid (with_errors new_result E) = (E = [])"
  by (simp add: with_errors_def new_result_def)

text \<open>
  When \<open>str()\<close> can write the account id and the values under the keys that are trimmed
  are strings wherever they are truthy, \<open>validate_config\<close> returns a result. Its error
  list is the errors of every check in the order of the checks, each check contributing
  what it reports when run alone on a fresh result, and the result is valid exactly when
  that list is empty. On every other mapping the call raises.
\<close>

lemma validate_config_returns:
  assumes "account_id_converts c" and "list_all (str_or_falsy c) stripped_keys"
  shows "\<exists>ra rr re rp r.
      check_account_id c new_result = Inr ra
    \<and> check_region c new_result = Inr rr
    \<and> check_endpoint_urls c [''endpoint_url'', ''credential_provider_endpoint_url''] new_result
        = Inr re
    \<and> check_user_pool_id c new_result = Inr rp
    \<and> validate_config c = Inr r
    \<and> errors r =
        errors (check_required_aws c required_aws_params new_result)
        @ errors (check_required_cognito c required_cognito_params new_result)
        @ errors (check_required_gateway c required_gateway_params new_result)
        @ errors ra @ errors rr @ errors re @ errors rp
        @ errors (check_placeholders c new_result)
    \<and> is_valid r = (errors r = [])"
proof -
  obtain E1 where E1: "\<And>r. check_required_aws c required_aws_params r = with_errors r E1"
    using check_required_aws_ex by blast
  obtain E2 where E2: "\<And>r. check_required_cognito c required_cognito_params r = with_errors r E2"
    using check_required_cognito_ex by blast
  obtain E3 where E3: "\<And>r. check_required_gateway c required_gateway_params r = with_errors r E3"
    using check_required_gateway_ex by blast
  obtain E4 where E4: "\<And>r. check_account_id c r = Inr (with_errors r E4)"
    using check_account_id_ex [OF assms(1)] by blast
  obtain E5 where E5: "\<And>r. check_region c r = Inr (with_errors r E5)"
    using check_region_ex [of c] assms(2) by (auto simp add: stripped_keys_def)
  obtain E6 where E6: "\<And>r. check_endpoint_urls c
       [''endpoint_url'', ''credential_provider_endpoint_url''] r = Inr (with_errors r E6)"
    using check_endpoint_urls_ex [of c "[''endpoint_url'', ''credential_provider_endpoint_url'']"]
      assms(2) by (auto simp add: stripped_keys_def)
  obtain E7 where E7: "\<And>r. check_user_pool_id c r = Inr (with_errors r E7)"
    using check_user_pool_id_ex [of c] assms(2) by (auto simp add: stripped_keys_def)
  obtain E8 where E8: "\<And>r. check_placeholders c r = with_errors r E8"
    using check_placeholders_ex by blast
  have v: "validate_config c
      = Inr (with_errors new_result (E1 @ E2 @ E3 @ E4 @ E5 @ E6 @ E7 @ E8))"
    by (simp add: validate_config_def Let_def E1 E2 E3 E4 E5 E6 E7 E8 with_errors_append
          del: check_endpoint_urls.simps)
  show ?thesis
    by (simp only: v E1 E2 E3 E4 E5 E6 E7 E8 with_errors_new is_valid_with_errors_new
          sum.inject simp_thms ex_simps)
qed

lemma validate_config_raises:
  assumes "\<not> (account_id_converts c \<and> list_all (str_or_falsy c) stripped_keys)"
  shows "validate_config c = Inl ValueError \<or> validate_config c = Inl AttributeError"
proof (cases "account_id_converts c")
  case False
  then show ?thesis by (simp add: validate_config_def Let_def check_account_id_raises)
next
  case acc: True
  obtain E4 where E4: "\<And>r. check_account_id c r = Inr (with_errors r E4)"
    using check_account_id_ex [OF acc] by blast
  show ?thesis
  proof (cases "str_or_falsy c ''region''")
    case False
    then show ?thesis by (simp add: validate_config_def Let_def E4 check_region_raises)
  next
    case reg: True
    obtain E5 where E5: "\<And>r. check_region c r = Inr (with_errors r E5)"
      using check_region_ex [OF reg] by blast
    show ?thesis
    proof (cases "list_all (str_or_falsy c)
                    [''endpoint_url'', ''credential_provider_endpoint_url'']")
      case False
      then show ?thesis
        using check_endpoint_urls_raises
          [of c "[''endpoint_url'', ''credential_provider_endpoint_url'']"]
        by (simp add: validate_config_def Let_def E4 E5 del: check_endpoint_urls.simps)
    next
      case True
      then obtain E6 where E6: "\<And>r. check_endpoint_urls c
           [''endpoint_url'', ''credential_provider_endpoint_url''] r = Inr (with_errors r E6)"
        using check_endpoint_urls_ex
          [of c "[''endpoint_url'', ''credential_provider_endpoint_url'']"]
        by blast
      from True reg acc assms have "\<not> str_or_falsy c ''user_pool_id''"
        by (simp add: stripped_keys_def)
      then show ?thesis
        by (simp add: validate_config_def Let_def E4 E5 E6 check_user_pool_id_raises
              del: check_endpoint_urls.simps)
    qed
  qed
qed

lemma validate_config_returns_example:
  "map_sum id (\<lambda>r. (is_valid r, map field (errors r)))
       (validate_config [(''account_id'', PStr ''12345''),
          (''endpoint_url'', PStr ''http://example.com'')])
     = Inr (False, [''region'', ''role_name'', ''credential_provider_endpoint_url'',
          ''user_pool_id'', ''client_id'', ''gateway_name'', ''credential_provider_name'',
          ''account_id'', ''endpoint_url''])"
  by code_simp

text \<open>
  C5. The checks do not all run on every mapping: with the integer 5 under \<open>region\<close> the
  region check calls \<open>.strip()\<close> on it and raises \<open>AttributeError\<close>, so the checks after it
  do not run and no result is returned. The account-id check in the same function wraps
  its value in \<open>str()\<close>, and the placeholder scan asks \<open>isinstance(value, str)\<close> first.
\<close>

theorem validate_config_raises_on_int_region:
  "validate_config [(''region'', PInt 5)] = Inl AttributeError"
  by (simp add: validate_config_def Let_def check_account_id_def check_region_def
        has_value_def)

subsection \<open>Validation: trimming and the account id\<close>

lemma ascii_digit_isdigit: "ascii_digit ch \<Longrightarrow> py_isdigit_char ch"
  by (auto simp add: ascii_digit_def py_isdigit_char_def)

lemma ascii_digit_not_space: "ascii_digit ch \<Longrightarrow> \<not> py_isspace_char ch"
  by (auto simp add: ascii_digit_def py_isspace_char_def)

lemma alnum_not_space: "py_isalnum_char ch \<Longrightarrow> \<not> py_isspace_char ch"
  by (auto simp add: py_isalnum_char_def py_isdigit_char_def py_isspace_char_def Let_def)

lemma hyphen_underscore_classes:
  "\<not> py_isspace_char (CHR ''-'')" "\<not> py_isspace_char (CHR ''_'')"
  "\<not> py_isalnum_char (CHR ''-'')" "\<not> py_isalnum_char (CHR ''_'')"
  "\<not> py_isspace_char (CHR ''h'')" "\<not> py_isspace_char (CHR ''/'')"
  by (simp_all add: py_isalnum_char_def py_isdigit_char_def py_isspace_char_def)

lemma dropWhile_rev_last:
  "xs \<noteq> [] \<Longrightarrow> \<not> P (last xs) \<Longrightarrow> dropWhile P (rev xs) = rev xs"
  by (cases xs rule: rev_cases) simp_all

lemma py_strip_keeps_prefix:
  assumes "a \<noteq> []" "\<not> py_isspace_char (hd a)" "\<not> py_isspace_char (last a)"
  shows "\<exists>b'. py_strip (a @ b) = a @ b'"
proof -
  from assms obtain x xs where a: "a = x # xs" by (cases a) auto
  have d1: "dropWhile py_isspace_char (a @ b) = a @ b"
    using assms(2) a by simp
  have d2: "dropWhile py_isspace_char (rev a) = rev a"
    using assms(1,3) by (simp add: dropWhile_rev_last)
  have "\<exists>t. dropWhile py_isspace_char (rev b @ rev a) = t @ rev a"
  proof (cases "\<forall>y\<in>set (rev b). py_isspace_char y")
    case True
    then have "dropWhile py_isspace_char (rev b @ rev a) = dropWhile py_isspace_char (rev a)"
      by (simp add: dropWhile_append)
    then show ?thesis using d2 by (intro exI [of _ "[]"]) simp
  next
    case False
    then have "dropWhile py_isspace_char (rev b @ rev a)
        = dropWhile py_isspace_char (rev b) @ rev a"
      by (auto simp add: dropWhile_append)
    then show ?thesis by blast
  qed
  then obtain t where "dropWhile py_isspace_char (rev b @ rev a) = t @ rev a" by blast
  then have "py_strip (a @ b) = a @ rev t"
    by (simp add: py_strip_def d1)
  then show ?thesis by blast
qed

lemma py_strip_id:
  assumes "s \<noteq> []" "\<not> py_isspace_char (hd s)" "\<not> py_isspace_char (last s)"
  shows "py_strip s = s"
proof -
  from assms obtain x xs where s: "s = x # xs" by (cases s) auto
  have d1: "dropWhile py_isspace_char s = s" using assms(2) s by simp
  have "dropWhile py_isspace_char (rev s) = rev s"
    using assms(1,3) by (simp add: dropWhile_rev_last)
  then show ?thesis by (simp add: py_strip_def d1)
qed

lemma py_strip_surrounded:
  assumes "list_all py_isspace_char ws1" "list_all py_isspace_char ws2"
    and "d \<noteq> []" "\<not> py_isspace_char (hd d)" "\<not> py_isspace_char (last d)"
  shows "py_strip (ws1 @ d @ ws2) = d"
proof -
  from assms obtain x xs where d: "d = x # xs" by (cases d) auto
  have d1: "dropWhile py_isspace_char (ws1 @ d @ ws2) = d @ ws2"
    using assms(1,4) d by (simp add: dropWhile_append list_all_iff)
  have "dropWhile py_isspace_char (rev d) = rev d"
    using assms(3,5) by (simp add: dropWhile_rev_last)
  then have "dropWhile py_isspace_char (rev ws2 @ rev d) = rev d"
    using assms(2) by (simp add: dropWhile_append list_all_iff)
  then show ?thesis by (simp add: py_strip_def d1)
qed

lemma twelve_digits_ends:
  assumes "twelve_digits d"
  shows "d \<noteq> []" "\<not> py_isspace_char (hd d)" "\<not> py_isspace_char (last d)"
    "list_all py_isdigit_char d" "length d = 12"
proof -
  from assms have len: "length d = 12" and dig: "\<forall>ch\<in>set d. ascii_digit ch"
    by (simp_all add: twelve_digits_def list_all_iff)
  from len show ne: "d \<noteq> []" by auto
  from ne dig show "\<not> py_isspace_char (hd d)" by (simp add: ascii_digit_not_space)
  from ne dig show "\<not> py_isspace_char (last d)" by (simp add: ascii_digit_not_space)
  from dig show "list_all py_isdigit_char d" by (simp add: list_all_iff ascii_digit_isdigit)
  from len show "length d = 12" .
qed

lemma set_py_strip: "set (py_strip s) \<subseteq> set s"
proof -
  have "set (dropWhile py_isspace_char (rev (dropWhile py_isspace_char s)))
      \<subseteq> set (rev (dropWhile py_isspace_char s))"
    by (auto dest: set_dropWhileD)
  also have "\<dots> \<subseteq> set s" by (auto dest: set_dropWhileD)
  finally show ?thesis by (simp add: py_strip_def)
qed

lemma py_strip_decompose:
  "\<exists>ws1 ws2. s = ws1 @ py_strip s @ ws2
     \<and> list_all py_isspace_char ws1 \<and> list_all py_isspace_char ws2"
proof -
  define u where "u = dropWhile py_isspace_char s"
  have s: "s = takeWhile py_isspace_char s @ u" by (simp add: u_def)
  have "rev (dropWhile py_isspace_char (rev u)) @ rev (takeWhile py_isspace_char (rev u))
      = rev (takeWhile py_isspace_char (rev u) @ dropWhile py_isspace_char (rev u))"
    by (simp only: rev_append)
  also have "\<dots> = u" by (simp only: takeWhile_dropWhile_id rev_rev_ident)
  finally have u: "u = py_strip s @ rev (takeWhile py_isspace_char (rev u))"
    by (simp only: py_strip_def u_def)
  have "list_all py_isspace_char (takeWhile py_isspace_char s)"
    by (auto simp add: list_all_iff dest: set_takeWhileD)
  moreover have "list_all py_isspace_char (rev (takeWhile py_isspace_char (rev u)))"
    by (auto simp add: list_all_iff dest: set_takeWhileD)
  moreover have "s = takeWhile py_isspace_char s @ py_strip s
      @ rev (takeWhile py_isspace_char (rev u))"
    using s u by simp
  ultimately show ?thesis by blast
qed

lemma char_of_digits:
  "map char_of [48, 49, 50, 51, 52, 53, 54, 55, 56, 57 :: nat] = ''0123456789''"
  by code_simp

lemma ascii_isdigit_digit:
  assumes "(of_char ch :: nat) < 128" "py_isdigit_char ch"
  shows "ascii_digit ch"
proof -
  from assms have "48 \<le> (of_char ch :: nat)" "(of_char ch :: nat) \<le> 57"
    by (auto simp add: py_isdigit_char_def Let_def)
  then have "(of_char ch :: nat) = 48 \<or> (of_char ch :: nat) = 49 \<or> (of_char ch :: nat) = 50
      \<or> (of_char ch :: nat) = 51 \<or> (of_char ch :: nat) = 52 \<or> (of_char ch :: nat) = 53
      \<or> (of_char ch :: nat) = 54 \<or> (of_char ch :: nat) = 55 \<or> (of_char ch :: nat) = 56
      \<or> (of_char ch :: nat) = 57"
    by arith
  moreover have "ch = char_of n" if "of_char ch = n" for n :: nat
    using that by auto
  ultimately have "ch = char_of (48 :: nat) \<or> ch = char_of (49 :: nat)
      \<or> ch = char_of (50 :: nat) \<or> ch = char_of (51 :: nat) \<or> ch = char_of (52 :: nat)
      \<or> ch = char_of (53 :: nat) \<or> ch = char_of (54 :: nat) \<or> ch = char_of (55 :: nat)
      \<or> ch = char_of (56 :: nat) \<or> ch = char_of (57 :: nat)"
    by blast
  then have "ch \<in> set (map char_of [48, 49, 50, 51, 52, 53, 54, 55, 56, 57 :: nat])"
    by (simp only: list.map list.set) blast
  then show ?thesis by (simp only: char_of_digits ascii_digit_def)
qed

lemma ascii_twelve_digits:
  assumes "ascii_string s"
  shows "(py_isdigit (py_strip s) \<and> length (py_strip s) = 12) = twelve_digits (py_strip s)"
proof
  assume h: "py_isdigit (py_strip s) \<and> length (py_strip s) = 12"
  have "\<forall>ch\<in>set (py_strip s). ascii_digit ch"
  proof
    fix ch assume ch: "ch \<in> set (py_strip s)"
    then have "ch \<in> set s" using set_py_strip by blast
    then have "(of_char ch :: nat) < 128"
      using assms by (simp add: ascii_string_def list_all_iff)
    moreover have "py_isdigit_char ch" using h ch by (simp add: py_isdigit_def list_all_iff)
    ultimately show "ascii_digit ch" by (rule ascii_isdigit_digit)
  qed
  then show "twelve_digits (py_strip s)" using h by (simp add: twelve_digits_def list_all_iff)
next
  assume "twelve_digits (py_strip s)"
  then show "py_isdigit (py_strip s) \<and> length (py_strip s) = 12"
    using twelve_digits_ends(1,4,5) by (simp add: py_isdigit_def)
qed

text \<open>
  C3, as the code has it. The format check looks at the account id after \<open>.strip()\<close>.
  Twelve decimal digits pass, also with whitespace around them. A string of ASCII
  characters that is not empty fails exactly when what is left after trimming is not
  twelve decimal digits, and what is left is twelve decimal digits only when the string is
  such digits between whitespace. The empty string is not looked at by this check (the
  required-key check and the placeholder scan report it).
\<close>

theorem check_account_id_format:
  "(map_of c ''account_id'' = Some (PStr s) \<and> ascii_string s \<longrightarrow>
      check_account_id c r =
        Inr (if s \<noteq> [] \<and> \<not> twelve_digits (py_strip s)
             then add_error r ''account_id'' (''Invalid AWS account ID format: '' @ py_strip s)
                    (Some ''AWS account ID must be a 12-digit number'') None
             else r))
   \<and> (map_of c ''account_id'' = Some (PStr (ws1 @ d @ ws2)) \<and> twelve_digits d
        \<and> list_all py_isspace_char ws1 \<and> list_all py_isspace_char ws2 \<longrightarrow>
      check_account_id c r = Inr r)
   \<and> (twelve_digits (py_strip s) \<longrightarrow>
        (\<exists>ws1 ws2. s = ws1 @ py_strip s @ ws2
           \<and> list_all py_isspace_char ws1 \<and> list_all py_isspace_char ws2))"
proof -
  have gen: "check_account_id c r =
        Inr (if s \<noteq> [] \<and> (\<not> py_isdigit (py_strip s) \<or> length (py_strip s) \<noteq> 12)
             then add_error r ''account_id'' (''Invalid AWS account ID format: '' @ py_strip s)
                    (Some ''AWS account ID must be a 12-digit number'') None
             else r)" if "map_of c ''account_id'' = Some (PStr s)" for s
    using that by (simp add: check_account_id_def has_value_def Let_def)
  have a: "check_account_id c r =
        Inr (if s \<noteq> [] \<and> \<not> twelve_digits (py_strip s)
             then add_error r ''account_id'' (''Invalid AWS account ID format: '' @ py_strip s)
                    (Some ''AWS account ID must be a 12-digit number'') None
             else r)"
    if m: "map_of c ''account_id'' = Some (PStr s)" and asc: "ascii_string s"
    using gen [OF m] ascii_twelve_digits [OF asc] by auto
  have b: "check_account_id c r = Inr r"
    if m: "map_of c ''account_id'' = Some (PStr (ws1 @ d @ ws2))" and d: "twelve_digits d"
      and w: "list_all py_isspace_char ws1" "list_all py_isspace_char ws2"
  proof -
    have "py_strip (ws1 @ d @ ws2) = d"
      using py_strip_surrounded [OF w twelve_digits_ends(1-3) [OF d]] .
    then show ?thesis
      using gen [OF m] twelve_digits_ends(1,4,5) [OF d] by (simp add: py_isdigit_def)
  qed
  show ?thesis using a b py_strip_decompose [of s] by blast
qed

theorem check_account_id_format_witness:
  "map_of [(''account_id'', PStr ''12345678901x'')] ''account_id''
     = Some (PStr ''12345678901x'')
   \<and> ascii_string ''12345678901x''
   \<and> check_account_id [(''account_id'', PStr ''12345678901x'')] new_result
       = Inr \<lparr>is_valid = False, status = INVALID,
              errors = [\<lparr>field = ''account_id'',
                         message = ''Invalid AWS account ID format: 12345678901x'',
                         suggestion = Some ''AWS account ID must be a 12-digit number'',
                         error_code = None\<rparr>],
              warnings = []\<rparr>
   \<and> twelve_digits ''123456789012''
   \<and> list_all py_isspace_char '' '' \<and> list_all py_isspace_char []
   \<and> check_account_id [(''account_id'', PStr ('' '' @ ''123456789012'' @ []))] new_result
       = Inr new_result"
proof -
  have s: "py_strip ''12345678901x'' = ''12345678901x''" by code_simp
  have n: "\<not> twelve_digits ''12345678901x''" by code_simp
  have a: "ascii_string ''12345678901x''" by code_simp
  have t: "twelve_digits ''123456789012''" by code_simp
  have w: "list_all py_isspace_char '' ''" by code_simp
  show ?thesis
    using check_account_id_format [of "[(''account_id'', PStr ''12345678901x'')]"
        "''12345678901x''" new_result "[]" "[]" "[]"]
      check_account_id_format [of "[(''account_id'', PStr ('' '' @ ''123456789012'' @ []))]"
        "[]" new_result "'' ''" "''123456789012''" "[]"] s n a t w
    by (simp add: add_error_def new_result_def)
qed

text \<open>
  C3 as it is written fails on a string that holds whitespace before trimming: thirteen
  characters, a space and twelve digits. The format check appends nothing, and with this
  account id the whole fixture validates without any error.
\<close>

theorem check_account_id_counterexample:
  "check_account_id [(''account_id'', PStr '' 123456789012'')] new_result = Inr new_result
   \<and> validate_config (AList.update ''account_id'' (PStr '' 123456789012'') sample_config_dict)
       = Inr \<lparr>is_valid = True, status = VALID, errors = [], warnings = []\<rparr>
   \<and> length '' 123456789012'' \<noteq> 12"
  by code_simp

subsection \<open>Validation: a well-formed configuration\<close>

lemma str_int_zero: "str_int 0 = [digit_char 0]"
  by (simp add: str_int_def)

lemma twelve_digits_truthy:
  assumes "py_str v = Inr t" "twelve_digits t"
  shows "truthy v"
proof (cases v)
  case (PInt i)
  show ?thesis
  proof (cases "i = 0")
    case True
    then show ?thesis using assms PInt
      by (auto simp add: twelve_digits_def str_int_zero max_str_digits_def split: if_splits)
  next
    case False
    then show ?thesis using PInt by simp
  qed
qed (use assms in \<open>auto simp add: twelve_digits_def split: if_splits\<close>)

lemma check_account_id_ok:
  assumes "map_of c ''account_id'' = Some v" "py_str v = Inr t" "twelve_digits t"
  shows "check_account_id c r = Inr r"
proof -
  have "py_strip t = t"
    using py_strip_id [OF twelve_digits_ends(1-3) [OF assms(3)]] .
  then show ?thesis
    using assms(1,2) twelve_digits_truthy [OF assms(2,3)]
      twelve_digits_ends(1,4,5) [OF assms(3)]
    by (simp add: check_account_id_def has_value_def Let_def py_isdigit_def)
qed

lemma valid_region_strip:
  assumes "valid_region s"
  shows "s \<noteq> []" "py_strip s = s"
    "py_isalnum (py_replace_empty (CHR ''_'') (py_replace_empty (CHR ''-'') s))"
proof -
  from assms have all: "\<forall>ch\<in>set s. py_isalnum_char ch \<or> ch = CHR ''-'' \<or> ch = CHR ''_''"
    and ex: "\<exists>ch\<in>set s. py_isalnum_char ch"
    by (simp_all add: valid_region_def list_all_iff list_ex_iff)
  from ex show ne: "s \<noteq> []" by auto
  have ns: "\<forall>ch\<in>set s. \<not> py_isspace_char ch"
    using all alnum_not_space hyphen_underscore_classes(1,2) by auto
  from ne ns have "\<not> py_isspace_char (hd s)" "\<not> py_isspace_char (last s)" by simp_all
  then show "py_strip s = s" using ne by (simp add: py_strip_id)
  from ex obtain ch where ch: "ch \<in> set s" "py_isalnum_char ch" by blast
  then have "ch \<noteq> CHR ''-''" "ch \<noteq> CHR ''_''"
    using hyphen_underscore_classes(3,4) by auto
  then have "ch \<in> set (filter (\<lambda>x. x \<noteq> CHR ''_'') (filter (\<lambda>x. x \<noteq> CHR ''-'') s))"
    using ch(1) by simp
  then have "filter (\<lambda>x. x \<noteq> CHR ''_'') (filter (\<lambda>x. x \<noteq> CHR ''-'') s) \<noteq> []"
    by (metis empty_iff empty_set)
  moreover have "\<forall>x\<in>set (filter (\<lambda>x. x \<noteq> CHR ''_'') (filter (\<lambda>x. x \<noteq> CHR ''-'') s)).
      py_isalnum_char x"
    using all by auto
  ultimately show
    "py_isalnum (py_replace_empty (CHR ''_'') (py_replace_empty (CHR ''-'') s))"
    by (simp add: py_isalnum_def py_replace_empty_def list_all_iff del: filter_filter)
qed

lemma check_region_ok:
  assumes "map_of c ''region'' = Some (PStr s)" "valid_region s"
  shows "check_region c r = Inr r"
  using assms(1) valid_region_strip [OF assms(2)]
  by (simp add: check_region_def has_value_def)

lemma https_url_strip:
  assumes "https_url u"
  shows "u \<noteq> []" "py_startswith (py_strip u) ''https://''"
proof -
  from assms obtain b where u: "u = ''https://'' @ b"
    by (auto simp add: https_url_def prefix_def)
  then show "u \<noteq> []" by simp
  have "\<exists>b'. py_strip (''https://'' @ b) = ''https://'' @ b'"
    by (rule py_strip_keeps_prefix) (simp_all add: hyphen_underscore_classes)
  then show "py_startswith (py_strip u) ''https://''"
    using u by (auto simp add: py_startswith_def prefix_def)
qed

lemma check_endpoint_urls_ok:
  assumes "map_of c ''endpoint_url'' = Some (PStr u)" "https_url u"
    and "map_of c ''credential_provider_endpoint_url'' = Some (PStr w)" "https_url w"
  shows "check_endpoint_urls c [''endpoint_url'', ''credential_provider_endpoint_url''] r = Inr r"
  using assms(1,3) https_url_strip [OF assms(2)] https_url_strip [OF assms(4)]
  by (simp add: has_value_def)

lemma well_formed_pool_id_strip:
  assumes "well_formed_pool_id p"
  shows "p \<noteq> []" "CHR ''_'' \<in> set (py_strip p)"
    "py_isalnum (py_replace_empty (CHR ''-'') (py_split_first (CHR ''_'') (py_strip p)))"
proof -
  define seg where "seg = takeWhile (\<lambda>ch. ch \<noteq> CHR ''_'') p"
  from assms have us: "CHR ''_'' \<in> set p"
    and all: "\<forall>ch\<in>set seg. py_isalnum_char ch \<or> ch = CHR ''-''"
    and ex: "\<exists>ch\<in>set seg. py_isalnum_char ch"
    by (simp_all add: well_formed_pool_id_def seg_def list_all_iff list_ex_iff)
  from us show "p \<noteq> []" by auto
  from ex have seg_ne: "seg \<noteq> []" by auto
  have no_us: "\<forall>ch\<in>set seg. ch \<noteq> CHR ''_''"
    unfolding seg_def by (auto dest: set_takeWhileD)
  from us have "dropWhile (\<lambda>ch. ch \<noteq> CHR ''_'') p \<noteq> []" by (simp add: dropWhile_eq_Nil_conv)
  moreover from this have "hd (dropWhile (\<lambda>ch. ch \<noteq> CHR ''_'') p) = CHR ''_''"
    using hd_dropWhile [of "\<lambda>ch. ch \<noteq> CHR ''_''" p] by simp
  ultimately obtain rest where "dropWhile (\<lambda>ch. ch \<noteq> CHR ''_'') p = CHR ''_'' # rest"
    by (cases "dropWhile (\<lambda>ch. ch \<noteq> CHR ''_'') p") auto
  then have p: "p = (seg @ ''_'') @ rest"
    using takeWhile_dropWhile_id [of "\<lambda>ch. ch \<noteq> CHR ''_''" p] by (simp add: seg_def)
  have "\<not> py_isspace_char (hd seg)"
    using seg_ne all alnum_not_space hyphen_underscore_classes(1) by (metis hd_in_set)
  then have "\<exists>b'. py_strip ((seg @ ''_'') @ rest) = (seg @ ''_'') @ b'"
    using seg_ne by (intro py_strip_keeps_prefix) (simp_all add: hyphen_underscore_classes)
  then obtain b' where st: "py_strip p = seg @ CHR ''_'' # b'" using p by auto
  then show "CHR ''_'' \<in> set (py_strip p)" by simp
  have sp: "py_split_first (CHR ''_'') (py_strip p) = seg"
    using no_us by (simp add: py_split_first_def st takeWhile_append2)
  from ex obtain ch where ch: "ch \<in> set seg" "py_isalnum_char ch" by blast
  then have "ch \<noteq> CHR ''-''" using hyphen_underscore_classes(3) by auto
  then have "ch \<in> set (filter (\<lambda>x. x \<noteq> CHR ''-'') seg)" using ch(1) by simp
  then have "filter (\<lambda>x. x \<noteq> CHR ''-'') seg \<noteq> []" by (metis empty_iff empty_set)
  moreover have "\<forall>x\<in>set (filter (\<lambda>x. x \<noteq> CHR ''-'') seg). py_isalnum_char x"
    using all by auto
  ultimately show
    "py_isalnum (py_replace_empty (CHR ''-'') (py_split_first (CHR ''_'') (py_strip p)))"
    by (simp add: sp py_isalnum_def py_replace_empty_def list_all_iff)
qed

lemma check_user_pool_id_ok:
  assumes "map_of c ''user_pool_id'' = Some (PStr p)" "well_formed_pool_id p"
  shows "check_user_pool_id c r = Inr r"
  using assms(1) well_formed_pool_id_strip [OF assms(2)]
  by (simp add: check_user_pool_id_def has_value_def)

lemma check_placeholders_ok:
  "list_all (\<lambda>kv. \<not> is_placeholder (snd kv)) items \<Longrightarrow> check_placeholders items r = r"
  by (induction items arbitrary: r) auto

text \<open>
  C6. A mapping that has a truthy value under every required key, an account id whose
  text is twelve decimal digits, a valid region, two https URLs and a well-formed user-pool
  id, and no placeholder value under any key, validates: the result is the fresh one, valid
  and without errors.
\<close>

theorem validate_config_well_formed:
  assumes acc: "map_of c ''account_id'' = Some acc"
    and acc_text: "py_str acc = Inr acc_text" and acc_digits: "twelve_digits acc_text"
    and reg: "map_of c ''region'' = Some (PStr reg)" and reg_ok: "valid_region reg"
    and url: "map_of c ''endpoint_url'' = Some (PStr url)" and url_ok: "https_url url"
    and cp_url: "map_of c ''credential_provider_endpoint_url'' = Some (PStr cp_url)"
    and cp_url_ok: "https_url cp_url"
    and pool: "map_of c ''user_pool_id'' = Some (PStr pool)"
    and pool_ok: "well_formed_pool_id pool"
    and others: "has_value c ''role_name''" "has_value c ''client_id''"
      "has_value c ''gateway_name''" "has_value c ''credential_provider_name''"
    and no_placeholder: "list_all (\<lambda>kv. \<not> is_placeholder (snd kv)) c"
  shows "validate_config c
         = Inr \<lparr>is_valid = True, status = VALID, errors = [], warnings = []\<rparr>"
proof -
  have hv: "has_value c ''account_id''" "has_value c ''region''" "has_value c ''endpoint_url''"
    "has_value c ''credential_provider_endpoint_url''" "has_value c ''user_pool_id''"
    using acc reg url cp_url pool twelve_digits_truthy [OF acc_text acc_digits]
      valid_region_strip(1) [OF reg_ok] https_url_strip(1) [OF url_ok]
      https_url_strip(1) [OF cp_url_ok] well_formed_pool_id_strip(1) [OF pool_ok]
    by (simp_all add: has_value_def)
  have r1: "check_required_aws c required_aws_params r = r" for r
    using hv others(1) by (simp add: required_aws_params_def)
  have r2: "check_required_cognito c required_cognito_params r = r" for r
    using hv others(2) by (simp add: required_cognito_params_def)
  have r3: "check_required_gateway c required_gateway_params r = r" for r
    using others(3,4) by (simp add: required_gateway_params_def)
  show ?thesis
    by (simp add: validate_config_def Let_def r1 r2 r3
          check_account_id_ok [OF acc acc_text acc_digits] check_region_ok [OF reg reg_ok]
          check_endpoint_urls_ok [OF url url_ok cp_url cp_url_ok]
          check_user_pool_id_ok [OF pool pool_ok]
          check_placeholders_ok [OF no_placeholder] new_result_def
        del: check_endpoint_urls.simps)
qed

theorem validate_config_well_formed_witness:
  "py_str (PStr ''123456789012'') = Inr ''123456789012''
   \<and> twelve_digits ''123456789012'' \<and> valid_region ''us-east-1''
   \<and> https_url ''https://bedrock-agentcore-control.us-east-1.amazonaws.com''
   \<and> https_url ''https://us-east-1.prod.agent-credential-provider.cognito.aws.dev''
   \<and> well_formed_pool_id ''us-east-1_ABCDEFGHI''
   \<and> list_all (\<lambda>kv. \<not> is_placeholder (snd kv)) sample_config_dict
   \<and> validate_config sample_config_dict
       = Inr \<lparr>is_valid = True, status = VALID, errors = [], warnings = []\<rparr>"
proof -
  have a: "map_of sample_config_dict ''account_id'' = Some (PStr ''123456789012'')"
    by (simp add: sample_config_dict_def)
  have a': "py_str (PStr ''123456789012'') = Inr ''123456789012''" by simp
  have a'': "twelve_digits ''123456789012''" by code_simp
  have b: "map_of sample_config_dict ''region'' = Some (PStr ''us-east-1'')"
    by (simp add: sample_config_dict_def)
  have b': "valid_region ''us-east-1''" by code_simp
  have c: "map_of sample_config_dict ''endpoint_url''
      = Some (PStr ''https://bedrock-agentcore-control.us-east-1.amazonaws.com'')"
    by (simp add: sample_config_dict_def)
  have c': "https_url ''https://bedrock-agentcore-control.us-east-1.amazonaws.com''"
    by code_simp
  have d: "map_of sample_config_dict ''credential_provider_endpoint_url''
      = Some (PStr ''https://us-east-1.prod.agent-credential-provider.cognito.aws.dev'')"
    by (simp add: sample_config_dict_def)
  have d': "https_url ''https://us-east-1.prod.agent-credential-provider.cognito.aws.dev''"
    by code_simp
  have e: "map_of sample_config_dict ''user_pool_id'' = Some (PStr ''us-east-1_ABCDEFGHI'')"
    by (simp add: sample_config_dict_def)
  have e': "well_formed_pool_id ''us-east-1_ABCDEFGHI''" by code_simp
  have f: "has_value sample_config_dict ''role_name''"
    "has_value sample_config_dict ''client_id''"
    "has_value sample_config_dict ''gateway_name''"
    "has_value sample_config_dict ''credential_provider_name''"
    by (simp_all add: sample_config_dict_def has_value_def)
  have g: "list_all (\<lambda>kv. \<not> is_placeholder (snd kv)) sample_config_dict"
    by (simp add: sample_config_dict_def placeholder_values_def)
  from validate_config_well_formed [OF a a' a'' b b' c c' d d' e e' f g]
  show ?thesis using a'' b' c' d' e' g by simp
qed

lemma py_str_integer_example: "py_str (PInt 123456789012) = Inr ''123456789012''"
  using char_of_digits by (simp add: str_int_def digit_char_def max_str_digits_def)

text \<open>An account id that is an integer of more than 4300 digits makes \<open>str()\<close> raise.\<close>

lemma str_nat_length: "10 ^ k \<le> n \<Longrightarrow> k < length (str_nat n)"
proof (induction k arbitrary: n)
  case 0
  then show ?case by (cases "n < 10") simp_all
next
  case (Suc k)
  then have "10 ^ k \<le> n div 10" by (simp add: less_eq_div_iff_mult_less_eq)
  then have "k < length (str_nat (n div 10))" by (rule Suc.IH)
  moreover have "(10 :: nat) \<le> 10 * 10 ^ k" by simp
  with Suc.prems have "\<not> n < 10" by (simp only: power_Suc)
  ultimately show ?case by (subst str_nat.simps) simp
qed

lemma py_str_long_int:
  assumes "10 ^ max_str_digits \<le> n"
  shows "py_str (PInt (int n)) = Inl ValueError"
  using str_nat_length [OF assms] by (simp del: str_nat.simps)

lemma validate_config_raises_on_long_account_id:
  assumes "10 ^ max_str_digits \<le> n"
  shows "validate_config [(''account_id'', PInt (int n))] = Inl ValueError"
proof -
  have "(1 :: nat) \<le> 10 ^ max_str_digits" by simp
  with assms have "n \<noteq> 0" by linarith
  then show ?thesis
    using py_str_long_int [OF assms]
    by (simp add: validate_config_def Let_def check_account_id_def has_value_def
          del: py_str.simps)
qed

end
